theory Spec2Isabelle
  imports Complex_Main
begin

section \<open>JavaScript values\<close>

text \<open>
  The module \<^verbatim>\<open>src/js/service-worker.js\<close> converts between native JavaScript values and
  the tagged JSON values of the document store (\<^verbatim>\<open>firestore.createField\<close>,
  \<^verbatim>\<open>firestore.parseField\<close>, \<^verbatim>\<open>firestore.parseMap\<close>), decodes the answer of a batch read
  (\<^verbatim>\<open>firestore.getDocumentsForIds\<close>) and assembles structured queries
  (\<^verbatim>\<open>class QueryBuilder\<close>).

  A JavaScript number is modelled by \<open>jsnum\<close>. A finite number is identified with the
  rational that its canonical decimal form (the output of \<^verbatim>\<open>Number.prototype.toString\<close>)
  denotes, so \<open>Finite 5\<close> is both \<^verbatim>\<open>5\<close> and \<^verbatim>\<open>5.0\<close>, and \<open>Finite (11/2)\<close> is \<^verbatim>\<open>5.5\<close>; a
  rational that is not the canonical form of a binary64 value stands for no JavaScript
  number. The two zeros are not distinguished (they are \<^verbatim>\<open>===\<close> and both print as \<^verbatim>\<open>0\<close>).
  A string is the list of the bytes of its UTF-8 encoding.
\<close>

datatype jsnum = NaN | PosInfinity | NegInfinity | Finite rat

text \<open>
  The values \<^verbatim>\<open>createField\<close> may be handed (its parameter is untyped). An object is the
  list of its own enumerable string-keyed properties, with distinct keys, in the order
  in which they were defined (JavaScript enumerates keys that are array indices before
  the others; the lists are not reordered for that). Every property is a data property:
  an object with an accessor property is not a value of the model. \<open>Obj\<close> is an object
  whose prototype chain ends in \<^verbatim>\<open>Object.prototype\<close>, \<open>ObjNoProto\<close> one whose chain does
  not (\<^verbatim>\<open>Object.create(null)\<close>); of a prototype only that is modelled. \<open>Fun\<close> is a
  function object and \<open>DateObj t\<close> a \<^verbatim>\<open>Date\<close> with time value \<open>t\<close>: both are objects
  without own enumerable properties. \<open>Sym\<close> is a symbol and \<open>BigInt i\<close> a big integer.
  Values are finite trees, so a cyclic object is not a value of the model.
\<close>

datatype jsval =
    Undefined
  | Null
  | Bool bool
  | Num jsnum
  | Str string
  | Sym
  | Arr "jsval list"
  | Obj "(string \<times> jsval) list"
  | ObjNoProto "(string \<times> jsval) list"
  | Fun
  | DateObj jsnum
  | BigInt int





text \<open>The only exception the modelled code can raise: a property read on \<^verbatim>\<open>null\<close>.\<close>

datatype error = TypeError

subsection \<open>Built-in functions on numbers and strings\<close>

text \<open>\<^verbatim>\<open>Number.isInteger\<close>: the argument is a finite number without fractional part.\<close>

fun Number_isInteger :: "jsval \<Rightarrow> bool" where
  "Number_isInteger (Num (Finite q)) = (of_int \<lfloor>q\<rfloor> = q)"
| "Number_isInteger _ = False"

definition digit_char :: "int \<Rightarrow> char" where
  "digit_char d = ''0123456789'' ! nat (d mod 10)"

text \<open>The decimal digits of a non-negative integer.\<close>

function int_digits :: "int \<Rightarrow> string" where
  "int_digits n = (if n < 10 then [digit_char n] else int_digits (n div 10) @ [digit_char (n mod 10)])"
  by pat_completeness auto
termination
  by (relation "measure nat") auto

declare int_digits.simps [simp del]

text \<open>
  \<open>scale_to_int fuel q j\<close> multiplies the non-negative \<open>q\<close> by ten until it is an integer
  and counts the steps: the number of decimal places of \<open>q\<close>. A binary64 value has at
  most 1074 decimal places, which bounds the fuel.
\<close>

fun scale_to_int :: "nat \<Rightarrow> rat \<Rightarrow> nat \<Rightarrow> int \<times> nat" where
  "scale_to_int 0 q j = (\<lfloor>q\<rfloor>, j)"
| "scale_to_int (Suc fuel) q j =
     (if of_int \<lfloor>q\<rfloor> = q then (\<lfloor>q\<rfloor>, j) else scale_to_int fuel (q * 10) (Suc j))"

text \<open>Removes the trailing zeros of a positive integer and counts them.\<close>

function strip_zeros :: "int \<Rightarrow> nat \<Rightarrow> int \<times> nat" where
  "strip_zeros s z = (if s \<le> 0 \<or> s mod 10 \<noteq> 0 then (s, z) else strip_zeros (s div 10) (Suc z))"
  by pat_completeness auto
termination
  by (relation "measure (\<lambda>(s, z). nat s)") auto

declare strip_zeros.simps [simp del]

text \<open>
  \<^verbatim>\<open>Number::toString\<close> in radix 10 for a positive finite number: with \<open>ds\<close> the \<open>k\<close>
  significant digits and \<open>n\<close> the position of the decimal point (the number is
  \<open>0.ds \<times> 10\<^sup>n\<close>), plain notation is used for \<open>-5 \<le> n \<le> 21\<close> and exponent notation
  otherwise.
\<close>

definition positive_toString :: "rat \<Rightarrow> string" where
  "positive_toString q =
     (let (m, j) = scale_to_int 1100 q 0;
          (s, z) = strip_zeros m 0;
          ds = int_digits s;
          k = int (length ds);
          n = k + int z - int j
      in if -5 \<le> n \<and> n \<le> 21 then
           (if k \<le> n then ds @ replicate (nat (n - k)) CHR ''0''
            else if 0 < n then take (nat n) ds @ ''.'' @ drop (nat n) ds
            else ''0.'' @ replicate (nat (- n)) CHR ''0'' @ ds)
         else
           (let e = (if 0 \<le> n - 1 then ''+'' else ''-'') @ int_digits \<bar>n - 1\<bar>
            in if k = 1 then ds @ ''e'' @ e
               else take 1 ds @ ''.'' @ drop 1 ds @ ''e'' @ e))"

fun Number_toString :: "jsnum \<Rightarrow> string" where
  "Number_toString NaN = ''NaN''"
| "Number_toString PosInfinity = ''Infinity''"
| "Number_toString NegInfinity = ''-Infinity''"
| "Number_toString (Finite q) =
     (if q = 0 then ''0''
      else if q < 0 then ''-'' @ positive_toString (- q)
      else positive_toString q)"

subsection \<open>From a value read to a number\<close>

text \<open>
  \<^verbatim>\<open>parseInt\<close> and \<^verbatim>\<open>parseFloat\<close> round the value they read to the nearest binary64 value,
  ties to the even significand; a value beyond the largest binary64 value rounds to
  infinity and a value below half the smallest one to zero. \<open>floor_log b q\<close> is the
  integer \<open>e\<close> with \<open>b\<^sup>e \<le> q < b\<^sup>e\<^sup>+\<^sup>1\<close> for a positive \<open>q\<close>.
\<close>

definition pow_int :: "rat \<Rightarrow> int \<Rightarrow> rat" where
  "pow_int b e = (if 0 \<le> e then b ^ nat e else 1 / b ^ nat (- e))"

function ilog :: "int \<Rightarrow> int \<Rightarrow> int" where
  "ilog b n = (if 2 \<le> b \<and> b \<le> n then 1 + ilog b (n div b) else 0)"
  by pat_completeness auto
termination
  by (relation "measure (\<lambda>(b, n). nat n)") (auto intro!: int_div_less_self)

declare ilog.simps [simp del]

definition floor_log :: "int \<Rightarrow> rat \<Rightarrow> int" where
  "floor_log b q =
     (let (n, d) = quotient_of q;
          e = ilog b n - ilog b d
      in if pow_int (of_int b) e \<le> q then e else e - 1)"

definition round_half_even :: "rat \<Rightarrow> int" where
  "round_half_even t =
     (let f = \<lfloor>t\<rfloor>; r = t - of_int f
      in if r < 1 / 2 then f else if 1 / 2 < r then f + 1 else if even f then f else f + 1)"

text \<open>
  The binary64 value nearest to a positive rational, as a rational; \<open>None\<close> when it
  rounds to infinity. The significand has 53 bits and the exponent of its last bit is
  at least \<open>-1074\<close> (subnormal values) and at most \<open>971\<close>.
\<close>

definition to_binary64 :: "rat \<Rightarrow> rat option" where
  "to_binary64 q =
     (let e = floor_log 2 q;
          p = max (e - 52) (- 1074);
          m = round_half_even (q / pow_int 2 p)
      in if 971 < p \<or> (p = 971 \<and> m = 2 ^ 53) then None else Some (of_int m * pow_int 2 p))"

text \<open>
  The canonical decimal form of a positive binary64 value \<open>d\<close>: the decimal with the
  fewest significant digits \<open>k\<close> that rounds to \<open>d\<close>; among several with \<open>k\<close> digits the
  one nearest to \<open>d\<close>, and of two equally near the one with the even last digit.
  Seventeen digits always suffice. \<open>n\<close> is the position of the decimal point of \<open>d\<close>.
\<close>

fun shortest_from :: "nat \<Rightarrow> nat \<Rightarrow> int \<Rightarrow> rat \<Rightarrow> rat" where
  "shortest_from 0 k n d = d"
| "shortest_from (Suc fuel) k n d =
     (let step = pow_int 10 (n - int k);
          lo = \<lfloor>d / step\<rfloor>;
          c1 = of_int lo * step;
          c2 = of_int (lo + 1) * step;
          ok1 = (to_binary64 c1 = Some d);
          ok2 = (to_binary64 c2 = Some d)
      in if ok1 \<and> ok2 then
           (if d - c1 < c2 - d then c1 else if c2 - d < d - c1 then c2
            else if even lo then c1 else c2)
         else if ok1 then c1
         else if ok2 then c2
         else shortest_from fuel (Suc k) n d)"

definition shortest_decimal :: "rat \<Rightarrow> rat" where
  "shortest_decimal d = shortest_from 17 1 (floor_log 10 d + 1) d"

text \<open>The number that a value read is rounded to, in the representation of \<open>jsnum\<close>.\<close>

definition number_of_rat :: "rat \<Rightarrow> jsnum" where
  "number_of_rat v =
     (if v = 0 then Finite 0
      else case to_binary64 \<bar>v\<bar> of
             None \<Rightarrow> (if v < 0 then NegInfinity else PosInfinity)
           | Some d \<Rightarrow>
               if d = 0 then Finite 0
               else Finite ((if v < 0 then - 1 else 1) * shortest_decimal d))"

subsection \<open>\<^verbatim>\<open>parseInt\<close> and \<^verbatim>\<open>parseFloat\<close>\<close>

text \<open>
  The white space and the line terminators that both functions skip at the start of
  the string: the ASCII ones, U+00A0, U+1680, U+2000 to U+200A, U+2028, U+2029, U+202F,
  U+205F, U+3000 and U+FEFF, each as its UTF-8 bytes. \<open>ws_length s\<close> is the number of bytes
  of the white space character that \<open>s\<close> starts with, or 0.
\<close>

definition ws_length :: "string \<Rightarrow> nat" where
  "ws_length s =
     (if take 1 s \<in> set (map (\<lambda>b. [b]) [CHR 0x09, CHR 0x0A, CHR 0x0B, CHR 0x0C, CHR 0x0D, CHR 0x20])
      then 1
      else if take 2 s = [CHR 0xC2, CHR 0xA0] then 2
      else if take 3 s \<in> set
                ([[CHR 0xE1, CHR 0x9A, CHR 0x80], [CHR 0xE2, CHR 0x81, CHR 0x9F],
                  [CHR 0xE3, CHR 0x80, CHR 0x80], [CHR 0xEF, CHR 0xBB, CHR 0xBF]]
                 @ map (\<lambda>b. [CHR 0xE2, CHR 0x80, b])
                     [CHR 0x80, CHR 0x81, CHR 0x82, CHR 0x83, CHR 0x84, CHR 0x85, CHR 0x86,
                      CHR 0x87, CHR 0x88, CHR 0x89, CHR 0x8A, CHR 0xA8, CHR 0xA9, CHR 0xAF])
      then 3
      else 0)"

function trim_start :: "string \<Rightarrow> string" where
  "trim_start s = (if ws_length s = 0 \<or> s = [] then s else trim_start (drop (ws_length s) s))"
  by pat_completeness auto
termination
  by (relation "measure length") auto

declare trim_start.simps [simp del]

definition digit_value :: "char \<Rightarrow> int option" where
  "digit_value c = map_of (zip ''0123456789'' [0 .. 9]) c"

definition hex_value :: "char \<Rightarrow> int option" where
  "hex_value c = map_of (zip ''0123456789abcdef'' [0 .. 15] @ zip ''ABCDEF'' [10 .. 15]) c"

definition is_digit :: "char \<Rightarrow> bool" where
  "is_digit c = (digit_value c \<noteq> None)"

definition digits_value :: "int \<Rightarrow> (char \<Rightarrow> int option) \<Rightarrow> string \<Rightarrow> int" where
  "digits_value radix val ds = foldl (\<lambda>acc c. acc * radix + (case val c of Some d \<Rightarrow> d | None \<Rightarrow> 0)) 0 ds"

text \<open>
  \<^verbatim>\<open>parseInt(s)\<close> without radix: skip white space, read a sign, switch to radix 16
  after a \<^verbatim>\<open>0x\<close> prefix, read the longest run of digits; \<^verbatim>\<open>NaN\<close> when that run is empty,
  otherwise the number that the integer read rounds to.
\<close>

definition parseInt :: "string \<Rightarrow> jsnum" where
  "parseInt inputString =
     (let S = trim_start inputString;
          neg = (S \<noteq> [] \<and> hd S = CHR ''-'');
          S1 = (if S \<noteq> [] \<and> (hd S = CHR ''+'' \<or> hd S = CHR ''-'') then tl S else S);
          hex = (take 2 S1 = ''0x'' \<or> take 2 S1 = ''0X'');
          S2 = (if hex then drop 2 S1 else S1);
          val = (if hex then hex_value else digit_value);
          Z = takeWhile (\<lambda>c. val c \<noteq> None) S2;
          mathInt = digits_value (if hex then 16 else 10) val Z
      in if Z = [] then NaN
         else number_of_rat (of_int (if neg then - mathInt else mathInt)))"

text \<open>
  \<^verbatim>\<open>parseFloat(s)\<close>: skip white space, read the longest prefix that is a decimal literal
  (sign, \<^verbatim>\<open>Infinity\<close> or digits with an optional fraction and an optional exponent);
  \<^verbatim>\<open>NaN\<close> when there is none, otherwise the number that the value read rounds to.
\<close>

definition parseFloat :: "string \<Rightarrow> jsnum" where
  "parseFloat inputString =
     (let S = trim_start inputString;
          neg = (S \<noteq> [] \<and> hd S = CHR ''-'');
          S1 = (if S \<noteq> [] \<and> (hd S = CHR ''+'' \<or> hd S = CHR ''-'') then tl S else S);
          ip = takeWhile is_digit S1;
          R1 = dropWhile is_digit S1;
          dot = (R1 \<noteq> [] \<and> hd R1 = CHR ''.'');
          fp = (if dot then takeWhile is_digit (tl R1) else []);
          R2 = (if dot then dropWhile is_digit (tl R1) else R1);
          ind = (R2 \<noteq> [] \<and> (hd R2 = CHR ''e'' \<or> hd R2 = CHR ''E''));
          R3 = (if ind then tl R2 else []);
          eneg = (R3 \<noteq> [] \<and> hd R3 = CHR ''-'');
          R4 = (if R3 \<noteq> [] \<and> (hd R3 = CHR ''+'' \<or> hd R3 = CHR ''-'') then tl R3 else R3);
          ed = takeWhile is_digit R4;
          ex = nat (digits_value 10 digit_value ed);
          mant = (of_int (digits_value 10 digit_value (ip @ fp)) :: rat) / 10 ^ length fp;
          v = (if eneg then mant / 10 ^ ex else mant * 10 ^ ex)
      in if take 8 S1 = ''Infinity'' then (if neg then NegInfinity else PosInfinity)
         else if ip = [] \<and> fp = [] then NaN
         else number_of_rat (if neg then - v else v))"

section \<open>The value codec\<close>

subsection \<open>Wire values\<close>

text \<open>
  What \<^verbatim>\<open>createField\<close> returns and \<^verbatim>\<open>parseField\<close> reads: either \<^verbatim>\<open>null\<close> or an object
  with the optional properties \<^verbatim>\<open>integerValue\<close>, \<^verbatim>\<open>doubleValue\<close>, \<^verbatim>\<open>booleanValue\<close>,
  \<^verbatim>\<open>stringValue\<close>, \<^verbatim>\<open>mapValue\<close> and \<^verbatim>\<open>arrayValue\<close>, in this order in \<open>WObj\<close>. \<open>None\<close> is
  an absent property (it reads as \<^verbatim>\<open>undefined\<close>). The payloads have the types that
  \<^verbatim>\<open>createField\<close> writes: strings for the two numeric tags, a boolean, a string, an
  object with an optional \<^verbatim>\<open>fields\<close> object, an object with an optional \<^verbatim>\<open>values\<close> array.
\<close>

datatype wire =
    WNull
  | WObj "string option" "string option" "bool option" "string option"
         "map_value option" "array_value option"
and map_value = MapValue "(string \<times> wire) list option"
and array_value = ArrayValue "wire list option"

text \<open>The six objects with a single property that \<^verbatim>\<open>createField\<close> builds.\<close>

definition integerValue :: "string \<Rightarrow> wire" where
  "integerValue s = WObj (Some s) None None None None None"

definition doubleValue :: "string \<Rightarrow> wire" where
  "doubleValue s = WObj None (Some s) None None None None"

definition booleanValue :: "bool \<Rightarrow> wire" where
  "booleanValue b = WObj None None (Some b) None None None"

definition stringValue :: "string \<Rightarrow> wire" where
  "stringValue s = WObj None None None (Some s) None None"

definition mapValue :: "(string \<times> wire) list \<Rightarrow> wire" where
  "mapValue fs = WObj None None None None (Some (MapValue (Some fs))) None"

definition arrayValue :: "wire list \<Rightarrow> wire" where
  "arrayValue vs = WObj None None None None None (Some (ArrayValue (Some vs)))"

subsection \<open>Objects as property lists\<close>

text \<open>
  Defining a property: an existing key keeps its place and gets the new value, a new
  key goes to the end.
\<close>

fun set_prop :: "(string \<times> 'a) list \<Rightarrow> string \<Rightarrow> 'a \<Rightarrow> (string \<times> 'a) list" where
  "set_prop [] k v = [(k, v)]"
| "set_prop ((k', v') # ps) k v = (if k' = k then (k, v) # ps else (k', v') # set_prop ps k v)"

text \<open>\<^verbatim>\<open>Object.fromEntries\<close>, and the spread of a property list into an object literal.\<close>

definition set_props :: "(string \<times> 'a) list \<Rightarrow> (string \<times> 'a) list \<Rightarrow> (string \<times> 'a) list" where
  "set_props obj es = foldl (\<lambda>acc (k, v). set_prop acc k v) obj es"

definition Object_fromEntries :: "(string \<times> 'a) list \<Rightarrow> (string \<times> 'a) list" where
  "Object_fromEntries es = set_props [] es"

text \<open>
  The assignment \<^verbatim>\<open>result[key] = v\<close> on an ordinary object: the key \<^verbatim>\<open>__proto__\<close> is the
  inherited accessor, whose setter creates no own property.
\<close>

definition assign :: "(string \<times> 'a) list \<Rightarrow> string \<Rightarrow> 'a \<Rightarrow> (string \<times> 'a) list" where
  "assign result key v = (if key = ''__proto__'' then result else set_prop result key v)"

text \<open>\<^verbatim>\<open>Object.entries\<close> of a value that is \<^verbatim>\<open>instanceof Object\<close>.\<close>

fun Object_entries :: "jsval \<Rightarrow> (string \<times> jsval) list" where
  "Object_entries (Obj ps) = ps"
| "Object_entries _ = []"

subsection \<open>\<^verbatim>\<open>firestore.createField\<close>\<close>

text \<open>
  \<^verbatim>\<open>
  createField: value => {
      if (Number.isInteger(value)) return { integerValue: value.toString() };
      if (typeof value === "number") return { doubleValue: value.toString() };
      if (typeof value === "boolean") return { booleanValue: value };
      if (typeof value === "string") return { stringValue: value };
      if (value instanceof Array) return { arrayValue: { values: value.map(firestore.createField) } };
      if (value instanceof Object) return { mapValue: { fields: Object.fromEntries(
          Object.entries(value).map(([key, value]) => [key, firestore.createField(value)])) } };
      return null;
  }
  \<close>
  Functions and dates are \<^verbatim>\<open>instanceof Object\<close>; \<^verbatim>\<open>undefined\<close>, \<^verbatim>\<open>null\<close>, symbols, big
  integers and objects without \<^verbatim>\<open>Object.prototype\<close> in their chain are not, and none
  of the \<^verbatim>\<open>typeof\<close> tests holds for them. Each equation below is the branch of the code
  that its argument reaches.
\<close>

fun createField :: "jsval \<Rightarrow> wire"
and createField_entries :: "(string \<times> jsval) list \<Rightarrow> (string \<times> wire) list" where
  "createField (Num n) =
     (if Number_isInteger (Num n) then integerValue (Number_toString n)
      else doubleValue (Number_toString n))"
| "createField (Bool b) = booleanValue b"
| "createField (Str s) = stringValue s"
| "createField (Arr vs) = arrayValue (map createField vs)"
| "createField (Obj ps) = mapValue (Object_fromEntries (createField_entries ps))"
| "createField Fun = mapValue (Object_fromEntries (createField_entries (Object_entries Fun)))"
| "createField (DateObj t) =
     mapValue (Object_fromEntries (createField_entries (Object_entries (DateObj t))))"
| "createField Undefined = WNull"
| "createField Null = WNull"
| "createField Sym = WNull"
| "createField (BigInt i) = WNull"
| "createField (ObjNoProto ps) = WNull"
| "createField_entries [] = []"
| "createField_entries ((key, v) # es) = (key, createField v) # createField_entries es"

subsection \<open>\<^verbatim>\<open>firestore.parseField\<close> and \<^verbatim>\<open>firestore.parseMap\<close>\<close>

text \<open>
  \<^verbatim>\<open>
  parseField: field => {
      if (field.integerValue) return parseInt(field.integerValue);
      if (field.doubleValue) return parseFloat(field.doubleValue);
      if (field.booleanValue) return field.booleanValue;
      if (field.stringValue) return field.stringValue;
      if (field.mapValue) return firestore.parseMap(field.mapValue);
      if (field.arrayValue?.values) return field.arrayValue.values.map(firestore.parseField);
      return null;
  },
  parseMap: map => {
      const result = {};
      for (const key in map.fields) result[key] = firestore.parseField(map.fields[key]);
      return result;
  }
  \<close>
  Each test is a test of truthiness: an absent property, the empty string and \<^verbatim>\<open>false\<close>
  are falsy, every object and every array is truthy. Reading a property of \<^verbatim>\<open>null\<close>
  raises a \<^verbatim>\<open>TypeError\<close>. A \<^verbatim>\<open>for\<close>-\<^verbatim>\<open>in\<close> loop over \<^verbatim>\<open>undefined\<close> does not iterate.
  \<open>parseMap_loop\<close> is the loop with its accumulator \<^verbatim>\<open>result\<close>, \<open>parseField_map\<close> is
  \<^verbatim>\<open>values.map(firestore.parseField)\<close>; both stop at the first exception.
\<close>

definition truthy_string :: "string option \<Rightarrow> bool" where
  "truthy_string p = (case p of None \<Rightarrow> False | Some s \<Rightarrow> s \<noteq> [])"

definition truthy_bool :: "bool option \<Rightarrow> bool" where
  "truthy_bool p = (case p of None \<Rightarrow> False | Some b \<Rightarrow> b)"

fun parseField :: "wire \<Rightarrow> error + jsval"
and parseMap :: "map_value \<Rightarrow> error + (string \<times> jsval) list"
and parseMap_loop :: "(string \<times> wire) list \<Rightarrow> (string \<times> jsval) list \<Rightarrow> error + (string \<times> jsval) list"
and parseField_map :: "wire list \<Rightarrow> error + jsval list" where
  "parseField WNull = Inl TypeError"
| "parseField (WObj iv dv bv sv mv av) =
     (if truthy_string iv then Inr (Num (parseInt (the iv)))
      else if truthy_string dv then Inr (Num (parseFloat (the dv)))
      else if truthy_bool bv then Inr (Bool (the bv))
      else if truthy_string sv then Inr (Str (the sv))
      else (case mv of
              Some m \<Rightarrow> (case parseMap m of Inl e \<Rightarrow> Inl e | Inr result \<Rightarrow> Inr (Obj result))
            | None \<Rightarrow>
               (case av of
                  Some (ArrayValue (Some vs)) \<Rightarrow>
                    (case parseField_map vs of Inl e \<Rightarrow> Inl e | Inr xs \<Rightarrow> Inr (Arr xs))
                | _ \<Rightarrow> Inr Null)))"
| "parseMap (MapValue None) = Inr []"
| "parseMap (MapValue (Some fs)) = parseMap_loop fs []"
| "parseMap_loop [] result = Inr result"
| "parseMap_loop ((key, w) # rest) result =
     (case parseField w of
        Inl e \<Rightarrow> Inl e
      | Inr v \<Rightarrow> parseMap_loop rest (assign result key v))"
| "parseField_map [] = Inr []"
| "parseField_map (w # ws) =
     (case parseField w of
        Inl e \<Rightarrow> Inl e
      | Inr x \<Rightarrow> (case parseField_map ws of Inl e \<Rightarrow> Inl e | Inr xs \<Rightarrow> Inr (x # xs)))"

subsection \<open>Values that survive encoding and decoding\<close>

text \<open>
  A number survives when its string form is read back to it by the function that
  \<^verbatim>\<open>parseField\<close> uses for its tag. A value survives when it is \<^verbatim>\<open>true\<close>, a surviving
  number, a non-empty string, a list of surviving values, or an object with distinct
  keys other than \<^verbatim>\<open>__proto__\<close> whose values survive.
\<close>

definition number_roundtrips :: "jsnum \<Rightarrow> bool" where
  "number_roundtrips n =
     (Number_toString n \<noteq> [] \<and>
      (if Number_isInteger (Num n) then parseInt (Number_toString n)
       else parseFloat (Number_toString n)) = n)"

fun roundtrips :: "jsval \<Rightarrow> bool"
and roundtrips_list :: "jsval list \<Rightarrow> bool"
and roundtrips_entries :: "(string \<times> jsval) list \<Rightarrow> bool" where
  "roundtrips (Bool b) = b"
| "roundtrips (Num n) = number_roundtrips n"
| "roundtrips (Str s) = (s \<noteq> [])"
| "roundtrips (Arr vs) = roundtrips_list vs"
| "roundtrips (Obj ps) =
     (distinct (map fst ps) \<and> ''__proto__'' \<notin> set (map fst ps) \<and> roundtrips_entries ps)"
| "roundtrips Undefined = False"
| "roundtrips Null = False"
| "roundtrips Sym = False"
| "roundtrips Fun = False"
| "roundtrips (DateObj t) = False"
| "roundtrips (BigInt i) = False"
| "roundtrips (ObjNoProto ps) = False"
| "roundtrips_list [] = True"
| "roundtrips_list (v # vs) = (roundtrips v \<and> roundtrips_list vs)"
| "roundtrips_entries [] = True"
| "roundtrips_entries ((k, v) # ps) = (roundtrips v \<and> roundtrips_entries ps)"


section \<open>Reading a batch of documents\<close>

text \<open>
  The JSON of a stored document, \<^verbatim>\<open>{name, fields, createTime, updateTime}\<close> (\<^verbatim>\<open>fields\<close> is
  absent when the document has none), and one entry of the answer to a batch read:
  \<^verbatim>\<open>{found: document}\<close> or \<^verbatim>\<open>{missing: path}\<close>.
\<close>

datatype wire_doc = WireDoc string "(string \<times> wire) list option" string string

datatype batch_entry = BatchEntry "wire_doc option" "string option"

fun entry_found :: "batch_entry \<Rightarrow> wire_doc option" where
  "entry_found (BatchEntry f m) = f"

text \<open>\<^verbatim>\<open>s.split(c)\<close> for a separator of one character; the result is never empty.\<close>

fun split_on :: "char \<Rightarrow> string \<Rightarrow> string list" where
  "split_on c [] = [[]]"
| "split_on c (x # xs) =
     (if x = c then [] # split_on c xs
      else (case split_on c xs of [] \<Rightarrow> [[x]] | y # ys \<Rightarrow> (x # y) # ys))"

definition projectPrefix :: string where
  "projectPrefix = ''projects/vocab-u-study/databases/(default)/documents''"

definition baseUrl :: "string \<Rightarrow> string" where
  "baseUrl dbServer = dbServer @ projectPrefix"

text \<open>
  The object literal that the callback of \<^verbatim>\<open>getDocumentsForIds\<close> builds from a found
  document:
  \<^verbatim>\<open>
  ({found: doc}) => ({
      id: doc.name.split("/").pop(),
      ...firestore.parseMap(doc),
      createTime: new Date(Date.parse(doc.createTime)),
      updateTime: new Date(Date.parse(doc.updateTime))
  })
  \<close>
  \<^verbatim>\<open>parseMap\<close> reads only the property \<^verbatim>\<open>fields\<close> of its argument. \<open>Date_parse\<close>, the
  parsing of a timestamp to a time value, is a parameter.
\<close>

fun found_document :: "(string \<Rightarrow> jsnum) \<Rightarrow> wire_doc \<Rightarrow> error + jsval" where
  "found_document Date_parse (WireDoc name fs createTime updateTime) =
     (let ident = last (split_on CHR ''/'' name) in
      case parseMap (MapValue fs) of
        Inl e \<Rightarrow> Inl e
      | Inr result \<Rightarrow>
          Inr (Obj (set_prop
                     (set_prop (set_props [(''id'', Str ident)] result)
                        ''createTime'' (DateObj (Date_parse createTime)))
                     ''updateTime'' (DateObj (Date_parse updateTime)))))"

text \<open>\<^verbatim>\<open>array.map(f)\<close> for a callback that may raise: the first exception ends the call.\<close>

fun map_raising :: "('a \<Rightarrow> error + 'b) \<Rightarrow> 'a list \<Rightarrow> error + 'b list" where
  "map_raising f [] = Inr []"
| "map_raising f (x # xs) =
     (case f x of
        Inl e \<Rightarrow> Inl e
      | Inr y \<Rightarrow> (case map_raising f xs of Inl e \<Rightarrow> Inl e | Inr ys \<Rightarrow> Inr (y # ys)))"

text \<open>
  \<^verbatim>\<open>
  getDocumentsForIds: async function (collection, documentIds) {
      let res = await fetch(`${this.baseUrl}:batchGet`, {
          method: "POST",
          headers: { "Content-Type": "application/json" },
          body: JSON.stringify({ documents: documentIds.map(id =>
              `${this.projectPrefix}/${collection.collectionKey}/${id}`) })
      });
      let json = await res.json();
      return json.filter(doc => doc.found).map(({found: doc}) => ({ ... }));
  }
  \<close>
  The remote store is the parameter \<open>batchGet\<close>: it maps the address and the list of
  document paths of the request to the parsed JSON array of the response. A request that
  fails is outside the model.
\<close>

definition getDocumentsForIds ::
  "(string \<Rightarrow> jsnum) \<Rightarrow> (string \<Rightarrow> string list \<Rightarrow> batch_entry list) \<Rightarrow>
   string \<Rightarrow> string \<Rightarrow> string list \<Rightarrow> error + jsval list" where
  "getDocumentsForIds Date_parse batchGet dbServer collectionKey documentIds =
     (let json = batchGet (baseUrl dbServer @ '':batchGet'')
                   (map (\<lambda>ident. projectPrefix @ ''/'' @ collectionKey @ ''/'' @ ident) documentIds)
      in map_raising (\<lambda>entry. found_document Date_parse (the (entry_found entry)))
           (filter (\<lambda>doc. entry_found doc \<noteq> None) json))"

section \<open>The query builder\<close>

text \<open>
  A filter is either \<^verbatim>\<open>{fieldFilter: {field: {fieldPath}, op, value}}\<close> or
  \<^verbatim>\<open>{compositeFilter: {op, filters}}\<close>; an ordering is \<^verbatim>\<open>{field: {fieldPath}, direction}\<close>.
  The query object starts as \<^verbatim>\<open>{}\<close>; \<open>None\<close> is an absent property.
\<close>

datatype filter =
    FieldFilter string string wire
  | CompositeFilter string "filter list"

datatype ordering = Ordering string string

record structuredQuery =
  sq_where :: "filter option"
  sq_orderBy :: "ordering list option"
  sq_limit :: "jsval option"
  sq_offset :: "jsval option"

definition empty_query :: structuredQuery where
  "empty_query = \<lparr>sq_where = None, sq_orderBy = None, sq_limit = None, sq_offset = None\<rparr>"

text \<open>
  The builder holds a reference to its query object, and \<^verbatim>\<open>build\<close> hands that reference
  out. The store maps references to query objects; every method takes the store and
  returns it updated, together with its JavaScript result (\<^verbatim>\<open>this\<close>, or the reference).
  Only the query object is held by reference here: the filters and the ordering list
  inside it are values of the model, so a reference that a caller keeps to one of them
  is not represented.
\<close>

type_synonym ref = nat

type_synonym store = "ref \<Rightarrow> structuredQuery"

datatype QueryBuilder = QueryBuilder ref

fun query :: "QueryBuilder \<Rightarrow> ref" where
  "query (QueryBuilder r) = r"

text \<open>\<^verbatim>\<open>constructor() { this.query = {}; }\<close>, the new object being allocated at \<open>r\<close>.\<close>

definition QueryBuilder_new :: "ref \<Rightarrow> store \<Rightarrow> QueryBuilder \<times> store" where
  "QueryBuilder_new r \<sigma> = (QueryBuilder r, \<sigma>(r := empty_query))"

text \<open>
  \<^verbatim>\<open>
  where(field, op, value) {
      let fieldFilter = { fieldFilter: { field: { fieldPath: field }, op,
                                         value: firestore.createField(value) } };
      if (!this.query.where) this.query.where = fieldFilter;
      else if (this.query.where.fieldFilter)
          this.query.where = { compositeFilter: { op: "AND", filters: [this.query.where, fieldFilter] } };
      else this.query.where.compositeFilter.filters.push(fieldFilter);
      return this;
  }
  \<close>
\<close>

definition QueryBuilder_where ::
  "QueryBuilder \<Rightarrow> string \<Rightarrow> string \<Rightarrow> jsval \<Rightarrow> store \<Rightarrow> QueryBuilder \<times> store" where
  "QueryBuilder_where this field op val \<sigma> =
     (let fieldFilter = FieldFilter field op (createField val);
          q = \<sigma> (query this)
      in (this, \<sigma>(query this :=
            (case sq_where q of
               None \<Rightarrow> q\<lparr>sq_where := Some fieldFilter\<rparr>
             | Some (FieldFilter f' op' v') \<Rightarrow>
                 q\<lparr>sq_where := Some (CompositeFilter ''AND'' [FieldFilter f' op' v', fieldFilter])\<rparr>
             | Some (CompositeFilter cop fs) \<Rightarrow>
                 q\<lparr>sq_where := Some (CompositeFilter cop (fs @ [fieldFilter]))\<rparr>))))"

text \<open>
  \<^verbatim>\<open>
  orderBy(field, direction) {
      if (!this.query.orderBy) this.query.orderBy = [];
      this.query.orderBy.push({ field: { fieldPath: field }, direction });
      return this;
  }
  \<close>
\<close>

definition QueryBuilder_orderBy ::
  "QueryBuilder \<Rightarrow> string \<Rightarrow> string \<Rightarrow> store \<Rightarrow> QueryBuilder \<times> store" where
  "QueryBuilder_orderBy this field direction \<sigma> =
     (let q = \<sigma> (query this);
          orderBy = (case sq_orderBy q of None \<Rightarrow> [] | Some os \<Rightarrow> os)
      in (this, \<sigma>(query this := q\<lparr>sq_orderBy := Some (orderBy @ [Ordering field direction])\<rparr>)))"

text \<open>\<^verbatim>\<open>limit(limit) { this.query.limit = limit; return this; }\<close>\<close>

definition QueryBuilder_limit :: "QueryBuilder \<Rightarrow> jsval \<Rightarrow> store \<Rightarrow> QueryBuilder \<times> store" where
  "QueryBuilder_limit this limit \<sigma> =
     (this, \<sigma>(query this := (\<sigma> (query this))\<lparr>sq_limit := Some limit\<rparr>))"

text \<open>\<^verbatim>\<open>setOffset(offset) { this.query.offset = offset; return this; }\<close>\<close>

definition QueryBuilder_setOffset :: "QueryBuilder \<Rightarrow> jsval \<Rightarrow> store \<Rightarrow> QueryBuilder \<times> store" where
  "QueryBuilder_setOffset this offset \<sigma> =
     (this, \<sigma>(query this := (\<sigma> (query this))\<lparr>sq_offset := Some offset\<rparr>))"

text \<open>\<^verbatim>\<open>build() { return this.query; }\<close>: the reference itself, and the store as it was.\<close>

definition QueryBuilder_build :: "QueryBuilder \<Rightarrow> store \<Rightarrow> ref \<times> store" where
  "QueryBuilder_build this \<sigma> = (query this, \<sigma>)"

subsection \<open>Sequences of calls\<close>

text \<open>
  A call of one of the five methods, and the effect of a sequence of calls on one
  builder, each on the store the previous one left. The result of \<^verbatim>\<open>build\<close> is dropped
  here.
\<close>

datatype call =
    Where string string jsval
  | OrderBy string string
  | Limit jsval
  | SetOffset jsval
  | Build

fun do_call :: "QueryBuilder \<Rightarrow> call \<Rightarrow> store \<Rightarrow> store" where
  "do_call this (Where field op val) \<sigma> = snd (QueryBuilder_where this field op val \<sigma>)"
| "do_call this (OrderBy field direction) \<sigma> = snd (QueryBuilder_orderBy this field direction \<sigma>)"
| "do_call this (Limit n) \<sigma> = snd (QueryBuilder_limit this n \<sigma>)"
| "do_call this (SetOffset n) \<sigma> = snd (QueryBuilder_setOffset this n \<sigma>)"
| "do_call this Build \<sigma> = snd (QueryBuilder_build this \<sigma>)"

fun do_calls :: "QueryBuilder \<Rightarrow> call list \<Rightarrow> store \<Rightarrow> store" where
  "do_calls this [] \<sigma> = \<sigma>"
| "do_calls this (c # cs) \<sigma> = do_calls this cs (do_call this c \<sigma>)"

text \<open>The leaf comparisons, the orderings, the limits and the offsets that a sequence of calls gives.\<close>

fun leaves :: "call list \<Rightarrow> filter list" where
  "leaves [] = []"
| "leaves (Where field op val # cs) = FieldFilter field op (createField val) # leaves cs"
| "leaves (_ # cs) = leaves cs"

fun orderings :: "call list \<Rightarrow> ordering list" where
  "orderings [] = []"
| "orderings (OrderBy field direction # cs) = Ordering field direction # orderings cs"
| "orderings (_ # cs) = orderings cs"

fun limits :: "call list \<Rightarrow> jsval list" where
  "limits [] = []"
| "limits (Limit n # cs) = n # limits cs"
| "limits (_ # cs) = limits cs"

fun offsets :: "call list \<Rightarrow> jsval list" where
  "offsets [] = []"
| "offsets (SetOffset n # cs) = n # offsets cs"
| "offsets (_ # cs) = offsets cs"

section \<open>Properties of the codec\<close>

lemmas wire_shapes = integerValue_def doubleValue_def booleanValue_def stringValue_def
  mapValue_def arrayValue_def

lemma truthy_string_simps [simp]:
  "truthy_string None = False" "truthy_string (Some s) = (s \<noteq> [])"
  by (simp_all add: truthy_string_def)

lemma truthy_bool_simps [simp]:
  "truthy_bool None = False" "truthy_bool (Some b) = b"
  by (simp_all add: truthy_bool_def)

lemma parseField_map_eq: "parseField_map ws = map_raising parseField ws"
  by (induction ws) (simp_all split: sum.splits)

subsection \<open>Printing integers\<close>

lemma scale_to_int_integer: "scale_to_int (Suc fuel) (of_int i) j = (i, j)"
  by simp

lemma strip_zeros_value:
  "0 < s \<Longrightarrow> strip_zeros s z = (s', z') \<Longrightarrow> 0 < s' \<and> z \<le> z' \<and> s = s' * 10 ^ (z' - z)"
proof (induction s z rule: strip_zeros.induct)
  case (1 s z)
  show ?case
  proof (cases "s mod 10 \<noteq> 0")
    case True
    then show ?thesis using "1.prems" by (simp add: strip_zeros.simps)
  next
    case False
    then have m: "s mod 10 = 0" by simp
    then have d: "s = s div 10 * 10" by presburger
    have pos: "0 < s div 10" using "1.prems"(1) m by presburger
    have r: "strip_zeros (s div 10) (Suc z) = (s', z')"
      using "1.prems" m by (simp add: strip_zeros.simps [of s])
    have "0 < s' \<and> Suc z \<le> z' \<and> s div 10 = s' * 10 ^ (z' - Suc z)"
      using "1.IH" [OF _ pos r] "1.prems"(1) m by simp
    then have *: "0 < s'" "Suc z \<le> z'" "s div 10 = s' * 10 ^ (z' - Suc z)" by simp_all
    have "z' - z = Suc (z' - Suc z)" using *(2) by simp
    then have "s' * 10 ^ (z' - z) = s' * 10 ^ (z' - Suc z) * 10" by simp
    also have "\<dots> = s" using *(3) d by simp
    finally show ?thesis using * by simp
  qed
qed

lemma digit_char_0: "digit_char 0 = CHR ''0''"
  by (simp add: digit_char_def)

lemma int_digits_times_10: "0 < s \<Longrightarrow> int_digits (s * 10) = int_digits s @ ''0''"
  by (subst int_digits.simps) (simp add: digit_char_0)

lemma int_digits_shift: "0 < s \<Longrightarrow> int_digits (s * 10 ^ z) = int_digits s @ replicate z CHR ''0''"
proof (induction z)
  case 0
  show ?case by simp
next
  case (Suc z)
  have "int_digits (s * 10 ^ Suc z) = int_digits ((s * 10 ^ z) * 10)"
    by (simp add: mult_ac)
  also have "\<dots> = int_digits (s * 10 ^ z) @ ''0''"
    using Suc.prems by (intro int_digits_times_10) simp
  also have "\<dots> = int_digits s @ replicate (Suc z) CHR ''0''"
    using Suc by (simp add: replicate_append_same)
  finally show ?case .
qed

lemma int_digits_length_pos: "0 < length (int_digits n)"
  by (subst int_digits.simps) simp

lemma int_digits_length: "n < 10 ^ k \<Longrightarrow> 0 < k \<Longrightarrow> length (int_digits n) \<le> k"
proof (induction n arbitrary: k rule: int_digits.induct)
  case (1 n)
  show ?case
  proof (cases "n < 10")
    case True
    then show ?thesis using "1.prems" by (simp add: int_digits.simps [of n])
  next
    case False
    obtain k' where k: "k = Suc k'" using "1.prems"(2) by (cases k) auto
    have "k' \<noteq> 0" using False "1.prems"(1) k by (cases k') auto
    moreover have "n div 10 < 10 ^ k'" using "1.prems"(1) k by simp
    ultimately have "length (int_digits (n div 10)) \<le> k'"
      using "1.IH" [OF False, of k'] by simp
    then show ?thesis using False k by (simp add: int_digits.simps [of n])
  qed
qed

lemma positive_toString_integer:
  assumes "0 < i" "i < 10 ^ 21"
  shows "positive_toString (of_int i) = int_digits i"
proof -
  obtain s z where sz: "strip_zeros i 0 = (s, z)" by (cases "strip_zeros i 0")
  from strip_zeros_value [OF assms(1) sz] have s: "0 < s" and i: "i = s * 10 ^ z" by simp_all
  have d: "int_digits i = int_digits s @ replicate z CHR ''0''"
    using int_digits_shift [OF s, of z] i by simp
  have "length (int_digits i) \<le> 21" using assms(2) by (intro int_digits_length) simp_all
  then have len: "length (int_digits s) + z \<le> 21" using d by simp
  have sc: "scale_to_int 1100 (of_int i) 0 = (i, 0)"
    using scale_to_int_integer [of 1099 i 0] by simp
  show ?thesis
    using len int_digits_length_pos [of s]
    by (simp add: positive_toString_def sc sz Let_def d)
qed

lemma Number_toString_integer:
  assumes "\<bar>i\<bar> < 10 ^ 21"
  shows "Number_toString (Finite (of_int i)) = (if i < 0 then ''-'' else []) @ int_digits \<bar>i\<bar>"
proof -
  consider "i = 0" | "0 < i" | "i < 0" by linarith
  then show ?thesis
  proof cases
    case 1
    then show ?thesis by (simp add: int_digits.simps digit_char_0)
  next
    case 2
    then show ?thesis using assms positive_toString_integer [of i] by simp
  next
    case 3
    then have "positive_toString (of_int (- i)) = int_digits (- i)"
      using assms by (intro positive_toString_integer) simp_all
    then show ?thesis using 3 by simp
  qed
qed

lemma toString_examples:
  "Number_toString (Finite 1) = ''1''" "Number_toString (Finite 2) = ''2''"
  "Number_toString (Finite 3) = ''3''" "Number_toString (Finite 5) = ''5''"
  "Number_toString (Finite 5.5) = ''5.5''"
  by code_simp+

lemma parse_examples:
  "parseInt ''3'' = Finite 3" "parseFloat ''5.5'' = Finite 5.5"
  by code_simp+

subsection \<open>Decoding after encoding\<close>

text \<open>
  C1. Round trip: \<open>decode (encode v)\<close> should be value-equal to \<open>v\<close> for null, booleans,
  numbers, strings, lists and maps. The code does not do this: \<^verbatim>\<open>createField(false)\<close> is
  \<^verbatim>\<open>{booleanValue: false}\<close>, whose payload is falsy, so \<^verbatim>\<open>parseField\<close> passes the Boolean
  test and returns \<^verbatim>\<open>null\<close>; the empty string is lost the same way; and \<^verbatim>\<open>createField(null)\<close>
  is \<^verbatim>\<open>null\<close> itself, on which \<^verbatim>\<open>parseField\<close> raises a \<^verbatim>\<open>TypeError\<close>, also inside a list.
\<close>

theorem createField_parseField_false:
  "parseField (createField (Bool False)) = Inr Null
   \<and> parseField (createField (Str '''')) = Inr Null
   \<and> parseField (createField Null) = Inl TypeError
   \<and> parseField (createField (Arr [Null])) = Inl TypeError"
  by (simp add: wire_shapes)

text \<open>
  Where the round trip does hold: on the values that \<open>roundtrips\<close> describes. From
  \<open>10\<^sup>2\<^sup>1\<close> on an integer prints in exponent notation, of which \<^verbatim>\<open>parseInt\<close> reads the
  digits before the point only; and a property named \<^verbatim>\<open>__proto__\<close> is not defined by the
  assignment in \<^verbatim>\<open>parseMap\<close>.
\<close>

lemma set_prop_fresh: "k \<notin> fst ` set ps \<Longrightarrow> set_prop ps k v = ps @ [(k, v)]"
  by (induction ps) auto

lemma set_props_distinct: "distinct (map fst (acc @ es)) \<Longrightarrow> set_props acc es = acc @ es"
proof (induction es arbitrary: acc)
  case Nil
  show ?case by (simp add: set_props_def)
next
  case (Cons e es)
  obtain k v where e: "e = (k, v)" by (cases e)
  have fresh: "k \<notin> fst ` set acc" using Cons.prems e by auto
  have "distinct (map fst ((acc @ [(k, v)]) @ es))" using Cons.prems e by auto
  from Cons.IH [OF this] show ?case
    using fresh e by (simp add: set_props_def set_prop_fresh)
qed

lemma createField_entries_keys: "map fst (createField_entries ps) = map fst ps"
  by (induction ps) auto

lemma Object_fromEntries_createField_entries:
  "distinct (map fst ps) \<Longrightarrow> Object_fromEntries (createField_entries ps) = createField_entries ps"
  using set_props_distinct [of "[]" "createField_entries ps"]
  by (simp add: Object_fromEntries_def createField_entries_keys)

lemma createField_roundtrip_aux:
  shows "roundtrips v \<Longrightarrow> parseField (createField v) = Inr v"
    and "roundtrips_list vs \<Longrightarrow> parseField_map (map createField vs) = Inr vs"
    and "roundtrips_entries ps \<Longrightarrow> distinct (map fst ps) \<Longrightarrow> ''__proto__'' \<notin> set (map fst ps) \<Longrightarrow>
         \<forall>acc. fst ` set acc \<inter> fst ` set ps = {} \<longrightarrow>
           parseMap_loop (createField_entries ps) acc = Inr (acc @ ps)"
proof (induction v and vs and ps rule: roundtrips_roundtrips_list_roundtrips_entries.induct)
  case (2 n)
  then show ?case by (auto simp: number_roundtrips_def wire_shapes)
next
  case (5 ps)
  then have d: "distinct (map fst ps)" and p: "''__proto__'' \<notin> set (map fst ps)"
    and e: "roundtrips_entries ps" by simp_all
  from "5.IH" [OF e d p] have "parseMap_loop (createField_entries ps) [] = Inr ([] @ ps)"
    by (elim allE [of _ "[]"]) simp
  then show ?case
    using d by (simp add: Object_fromEntries_createField_entries mapValue_def)
next
  case (16 k v ps)
  show ?case
  proof (intro impI allI)
    fix acc :: "(string \<times> jsval) list"
    assume a: "fst ` set acc \<inter> fst ` set ((k, v) # ps) = {}"
    have v: "parseField (createField v) = Inr v" using 16 by simp
    have k: "k \<noteq> ''__proto__''" "k \<notin> fst ` set acc" using "16.prems" a by auto
    have "fst ` set (acc @ [(k, v)]) \<inter> fst ` set ps = {}" using a "16.prems" by auto
    moreover have "\<forall>acc. fst ` set acc \<inter> fst ` set ps = {} \<longrightarrow>
           parseMap_loop (createField_entries ps) acc = Inr (acc @ ps)"
      using 16 by simp
    ultimately have "parseMap_loop (createField_entries ps) (acc @ [(k, v)]) = Inr ((acc @ [(k, v)]) @ ps)"
      by blast
    then show "parseMap_loop (createField_entries ((k, v) # ps)) acc = Inr (acc @ (k, v) # ps)"
      using v k by (simp add: assign_def set_prop_fresh)
  qed
qed (simp_all add: wire_shapes)

lemma createField_roundtrip: "roundtrips v \<Longrightarrow> parseField (createField v) = Inr v"
  by (rule createField_roundtrip_aux)

lemma number_roundtrips_examples:
  "number_roundtrips (Finite 5.5)" "number_roundtrips (Finite (-0.001))" "number_roundtrips NaN"
  "number_roundtrips PosInfinity" "number_roundtrips NegInfinity"
  "number_roundtrips (Finite 0)" "number_roundtrips (Finite (- 42))"
  "number_roundtrips (Finite 9007199254740992)"
  by code_simp+

text \<open>
  The value read is rounded: \<^verbatim>\<open>parseInt("9007199254740993")\<close> is \<^verbatim>\<open>9007199254740992\<close>; a
  no-break space before the digits is skipped.
\<close>

lemma parse_rounding_examples:
  "parseInt ''9007199254740993'' = Finite 9007199254740992"
  "parseFloat ''0.1'' = Finite 0.1"
  "parseInt [CHR 0xC2, CHR 0xA0, CHR ''7''] = Finite 7"
  by code_simp+

lemma large_integer_not_roundtrips:
  "parseField (createField (Num (Finite (10 ^ 21)))) = Inr (Num (Finite 1))"
  by code_simp

lemma proto_key_not_roundtrips:
  "parseField (createField (Obj [(''__proto__'', Bool True), (''a'', Bool True)]))
     = Inr (Obj [(''a'', Bool True)])"
  by code_simp


text \<open>
  The example of the specification: the wire map \<^verbatim>\<open>{n: Integer("3"), s: String("x")}\<close>
  decodes to \<^verbatim>\<open>{n: 3, s: "x"}\<close>.
\<close>

lemma parseField_map_example:
  "parseField (mapValue [(''n'', integerValue ''3''), (''s'', stringValue ''x'')])
     = Inr (Obj [(''n'', Num (Finite 3)), (''s'', Str ''x'')])"
  by (simp add: wire_shapes assign_def parse_examples)

subsection \<open>The order of the tests in \<^verbatim>\<open>parseField\<close>\<close>

text \<open>
  The loop of \<^verbatim>\<open>parseMap\<close> decodes the fields one by one, in order, stops at the first
  exception, and assigns each decoded value to its key.
\<close>

lemma parseMap_loop_fields:
  "parseMap_loop fs acc =
     (case map_raising (\<lambda>(key, w). map_sum id (Pair key) (parseField w)) fs of
        Inl e \<Rightarrow> Inl e
      | Inr kvs \<Rightarrow> Inr (foldl (\<lambda>result (key, v). assign result key v) acc kvs))"
proof (induction fs arbitrary: acc)
  case Nil
  show ?case by simp
next
  case (Cons f fs)
  obtain key w where f: "f = (key, w)" by (cases f)
  show ?case
    unfolding f by (cases "parseField w") (simp_all add: Cons.IH split: sum.splits)
qed

text \<open>
  \<^verbatim>\<open>parseField\<close> on a wire object: it looks for the populated variant in the order
  Integer, Double, Boolean, String, Map, Array and returns the native value of the first
  one. A variant counts as populated when its test in the code succeeds: a non-empty
  string, the boolean \<^verbatim>\<open>true\<close>, a \<^verbatim>\<open>mapValue\<close> object, an \<^verbatim>\<open>arrayValue\<close> object with a
  \<^verbatim>\<open>values\<close> array. In each line the properties after the winning one are arbitrary. The
  cases cover every wire object.
\<close>

lemma parseField_cases:
  "s \<noteq> [] \<Longrightarrow> parseField (WObj (Some s) dv bv sv mv av) = Inr (Num (parseInt s))"
  "\<not> truthy_string iv \<Longrightarrow> s \<noteq> [] \<Longrightarrow>
     parseField (WObj iv (Some s) bv sv mv av) = Inr (Num (parseFloat s))"
  "\<not> truthy_string iv \<Longrightarrow> \<not> truthy_string dv \<Longrightarrow>
     parseField (WObj iv dv (Some True) sv mv av) = Inr (Bool True)"
  "\<not> truthy_string iv \<Longrightarrow> \<not> truthy_string dv \<Longrightarrow> \<not> truthy_bool bv \<Longrightarrow> s \<noteq> [] \<Longrightarrow>
     parseField (WObj iv dv bv (Some s) mv av) = Inr (Str s)"
  "\<not> truthy_string iv \<Longrightarrow> \<not> truthy_string dv \<Longrightarrow> \<not> truthy_bool bv \<Longrightarrow> \<not> truthy_string sv \<Longrightarrow>
     parseField (WObj iv dv bv sv (Some (MapValue None)) av) = Inr (Obj [])"
  "\<not> truthy_string iv \<Longrightarrow> \<not> truthy_string dv \<Longrightarrow> \<not> truthy_bool bv \<Longrightarrow> \<not> truthy_string sv \<Longrightarrow>
     parseField (WObj iv dv bv sv (Some (MapValue (Some fs))) av) =
       (case map_raising (\<lambda>(key, w). map_sum id (Pair key) (parseField w)) fs of
          Inl e \<Rightarrow> Inl e
        | Inr kvs \<Rightarrow> Inr (Obj (foldl (\<lambda>result (key, v). assign result key v) [] kvs)))"
  "\<not> truthy_string iv \<Longrightarrow> \<not> truthy_string dv \<Longrightarrow> \<not> truthy_bool bv \<Longrightarrow> \<not> truthy_string sv \<Longrightarrow>
     parseField (WObj iv dv bv sv None (Some (ArrayValue (Some vs))))
       = map_sum id Arr (map_raising parseField vs)"
  "\<not> truthy_string iv \<Longrightarrow> \<not> truthy_string dv \<Longrightarrow> \<not> truthy_bool bv \<Longrightarrow> \<not> truthy_string sv \<Longrightarrow>
     av = None \<or> av = Some (ArrayValue None) \<Longrightarrow>
     parseField (WObj iv dv bv sv None av) = Inr Null"
  by (auto simp: parseField_map_eq parseMap_loop_fields split: sum.splits)

lemma parseField_cases_examples:
  "parseField (WObj (Some ''3'') (Some ''5.5'') (Some True) (Some ''x'') (Some (MapValue None))
                (Some (ArrayValue (Some [])))) = Inr (Num (Finite 3))"
  "parseField (WObj (Some '''') (Some ''5.5'') (Some True) (Some ''x'') (Some (MapValue None))
                (Some (ArrayValue (Some [])))) = Inr (Num (Finite 5.5))"
  "parseField (WObj (Some '''') None (Some True) (Some ''x'') (Some (MapValue None))
                (Some (ArrayValue (Some [])))) = Inr (Bool True)"
  "parseField (WObj None None (Some False) (Some ''x'') (Some (MapValue None))
                (Some (ArrayValue (Some [])))) = Inr (Str ''x'')"
  "parseField (WObj None None None None
                (Some (MapValue (Some [(''n'', integerValue ''3''), (''s'', stringValue ''x'')])))
                (Some (ArrayValue (Some [])))) = Inr (Obj [(''n'', Num (Finite 3)), (''s'', Str ''x'')])"
  "parseField (WObj None None None None None (Some (ArrayValue (Some [stringValue ''x''])))) =
     Inr (Arr [Str ''x''])"
  "parseField (WObj None None None None None None) = Inr Null"
  by (simp_all add: parse_examples wire_shapes assign_def)


subsection \<open>Falsy payloads\<close>

text \<open>
  C10. A wire value whose Boolean variant holds \<^verbatim>\<open>false\<close>, and a wire value whose String
  variant holds the empty string, decode to \<^verbatim>\<open>null\<close> (not to \<^verbatim>\<open>false\<close>, not to the empty
  string): the tests of \<^verbatim>\<open>parseField\<close> look at the truthiness of the payload, not at the
  presence of the tag. The first two lines allow other properties on the object as long
  as none of them is populated; the last two are the objects that \<^verbatim>\<open>createField\<close> writes.
\<close>

theorem parseField_falsy_payload:
  "(\<not> truthy_string iv \<and> \<not> truthy_string dv \<and> \<not> truthy_string sv
      \<and> (av = None \<or> av = Some (ArrayValue None)) \<longrightarrow>
        parseField (WObj iv dv (Some False) sv None av) = Inr Null)
   \<and> (\<not> truthy_string iv \<and> \<not> truthy_string dv \<and> \<not> truthy_bool bv
      \<and> (av = None \<or> av = Some (ArrayValue None)) \<longrightarrow>
        parseField (WObj iv dv bv (Some '''') None av) = Inr Null)
   \<and> parseField (booleanValue False) = Inr Null
   \<and> parseField (stringValue '''') = Inr Null"
  by (auto simp: wire_shapes)

theorem parseField_falsy_payload_witness:
  "parseField (WObj None None (Some False) None None None) = Inr Null
   \<and> parseField (WObj None None (Some False) None None None) \<noteq> Inr (Bool False)
   \<and> parseField (WObj None None None (Some '''') None None) = Inr Null
   \<and> parseField (WObj None None None (Some '''') None None) \<noteq> Inr (Str '''')"
  using parseField_falsy_payload [of None None None None None]
  by simp

subsection \<open>The empty array\<close>

text \<open>
  An \<^verbatim>\<open>arrayValue\<close> object with an empty \<^verbatim>\<open>values\<close> array, which is what \<^verbatim>\<open>createField\<close>
  writes for \<^verbatim>\<open>[]\<close>, decodes to the empty list: an empty array is truthy.
\<close>

lemma parseField_empty_values:
  "\<not> truthy_string iv \<Longrightarrow> \<not> truthy_string dv \<Longrightarrow> \<not> truthy_bool bv \<Longrightarrow> \<not> truthy_string sv \<Longrightarrow>
   parseField (WObj iv dv bv sv None (Some (ArrayValue (Some [])))) = Inr (Arr [])"
  by simp

lemma parseField_createField_empty:
  "parseField (arrayValue []) = Inr (Arr [])" "parseField (createField (Arr [])) = Inr (Arr [])"
  by (simp_all add: arrayValue_def)

text \<open>
  C9. An Array variant that contains no elements should decode to the empty list, not
  to \<^verbatim>\<open>null\<close>. The code does this for \<^verbatim>\<open>{arrayValue: {values: []}}\<close> only. The Array variant
  \<^verbatim>\<open>{arrayValue: {}}\<close>, which has no \<^verbatim>\<open>values\<close> property and so no elements either, fails the
  test \<^verbatim>\<open>field.arrayValue?.values\<close> and decodes to \<^verbatim>\<open>null\<close>; the Map variant without
  \<^verbatim>\<open>fields\<close>, \<^verbatim>\<open>{mapValue: {}}\<close>, does decode to the empty map.
\<close>

theorem parseField_arrayValue_without_values:
  "parseField (WObj None None None None None (Some (ArrayValue None))) = Inr Null
   \<and> parseField (WObj None None None None None (Some (ArrayValue None))) \<noteq> Inr (Arr [])
   \<and> parseField (WObj None None None None (Some (MapValue None)) None) = Inr (Obj [])"
  by simp

subsection \<open>Numbers in \<^verbatim>\<open>createField\<close>\<close>

text \<open>
  C4. A number without fractional part (\<^verbatim>\<open>Number.isInteger\<close>: a finite number whose value
  is an integer, however it was written) encodes to the Integer variant holding its
  string form; every other number, \<^verbatim>\<open>NaN\<close> and the infinities included, encodes to the
  Double variant holding its string form. The string form is \<^verbatim>\<open>value.toString()\<close>; for an
  integer below \<open>10\<^sup>2\<^sup>1\<close> in absolute value it is the sign and the decimal digits.
\<close>

theorem createField_number:
  "(Number_isInteger (Num n) \<longrightarrow> createField (Num n) = integerValue (Number_toString n))
   \<and> (\<not> Number_isInteger (Num n) \<longrightarrow> createField (Num n) = doubleValue (Number_toString n))
   \<and> (Number_isInteger (Num n) \<longleftrightarrow> (\<exists>i. n = Finite (of_int i)))
   \<and> (\<bar>i\<bar> < 10 ^ 21 \<longrightarrow>
        createField (Num (Finite (of_int i)))
          = integerValue ((if i < 0 then ''-'' else []) @ int_digits \<bar>i\<bar>))"
proof -
  have "Number_isInteger (Num n) \<longleftrightarrow> (\<exists>i. n = Finite (of_int i))"
    by (cases n) auto
  moreover have "createField (Num (Finite (of_int i)))
          = integerValue ((if i < 0 then ''-'' else []) @ int_digits \<bar>i\<bar>)" if "\<bar>i\<bar> < 10 ^ 21"
    using Number_toString_integer [OF that] by simp
  ultimately show ?thesis by simp
qed

theorem createField_number_witness:
  "createField (Num (Finite 5)) = integerValue ''5''
   \<and> createField (Num (Finite 5.5)) = doubleValue ''5.5''
   \<and> createField (Num (Finite 5.0)) = integerValue ''5''
   \<and> createField (Num NaN) = doubleValue ''NaN''"
proof -
  have a: "Number_isInteger (Num (Finite 5))" by simp
  have b: "\<not> Number_isInteger (Num (Finite 5.5))" by code_simp
  have c: "\<not> Number_isInteger (Num NaN)" by simp
  have d: "Finite 5.0 = Finite 5" by simp
  have e: "Number_toString NaN = ''NaN''" by simp
  have 1: "createField (Num (Finite 5)) = integerValue (Number_toString (Finite 5))"
    using createField_number [of "Finite 5" 5] a by blast
  have 2: "createField (Num (Finite 5.5)) = doubleValue (Number_toString (Finite 5.5))"
    using createField_number [of "Finite 5.5" 5] b by blast
  have 3: "createField (Num NaN) = doubleValue (Number_toString NaN)"
    using createField_number [of NaN 5] c by blast
  show ?thesis
    unfolding d 1 2 3 e toString_examples by simp
qed

subsection \<open>What \<^verbatim>\<open>createField\<close> maps to \<^verbatim>\<open>null\<close>\<close>




section \<open>Properties of the batch read\<close>

lemma map_raising_length: "map_raising f xs = Inr ys \<Longrightarrow> length ys = length xs"
  by (induction xs arbitrary: ys) (auto split: sum.splits)

lemma map_raising_map: "map_raising f xs = Inr ys \<Longrightarrow> map Inr ys = map f xs"
  by (induction xs arbitrary: ys) (auto split: sum.splits)

lemma map_raising_Inl: "map_raising f xs = Inl e \<Longrightarrow> \<exists>x \<in> set xs. f x = Inl e"
  by (induction xs) (auto split: sum.splits)

lemma map_raising_Inr: "\<forall>x \<in> set xs. \<exists>y. f x = Inr y \<Longrightarrow> \<exists>ys. map_raising f xs = Inr ys"
  by (induction xs) (auto split: sum.splits)

lemma getDocumentsForIds_eq:
  "getDocumentsForIds Date_parse batchGet dbServer collectionKey documentIds =
     map_raising (found_document Date_parse)
       (List.map_filter entry_found
          (batchGet (baseUrl dbServer @ '':batchGet'')
             (map (\<lambda>ident. projectPrefix @ ''/'' @ collectionKey @ ''/'' @ ident) documentIds)))"
proof -
  have "map_raising (\<lambda>entry. found_document Date_parse (the (entry_found entry)))
          (filter (\<lambda>doc. entry_found doc \<noteq> None) json)
        = map_raising (found_document Date_parse) (List.map_filter entry_found json)" for json
    by (induction json) (auto simp: map_filter_simps split: option.splits sum.splits)
  then show ?thesis by (simp add: getDocumentsForIds_def Let_def)
qed

lemma found_document_Obj: "found_document Date_parse d = Inr x \<Longrightarrow> \<exists>ps. x = Obj ps"
  by (cases d) (auto simp: Let_def split: sum.splits)

text \<open>
  C8. The result of \<^verbatim>\<open>getDocumentsForIds\<close> has exactly one decoded document for each
  entry of the response that is tagged \<^verbatim>\<open>found\<close>, in the order of the response, and
  nothing for an entry tagged \<^verbatim>\<open>missing\<close>: its length is the number of found entries and
  each element is an object, never a placeholder. The call returns such a list whenever
  every found document decodes; otherwise it raises the exception of a document that
  does not decode.
\<close>

theorem getDocumentsForIds_omits_missing:
  "let json = batchGet (baseUrl dbServer @ '':batchGet'')
                (map (\<lambda>ident. projectPrefix @ ''/'' @ collectionKey @ ''/'' @ ident) documentIds);
       founds = List.map_filter entry_found json
   in (case getDocumentsForIds Date_parse batchGet dbServer collectionKey documentIds of
         Inr docs \<Rightarrow>
           length docs = length (filter (\<lambda>entry. entry_found entry \<noteq> None) json)
           \<and> map Inr docs = map (found_document Date_parse) founds
           \<and> (\<forall>doc \<in> set docs. \<exists>ps. doc = Obj ps)
       | Inl e \<Rightarrow> \<exists>d \<in> set founds. found_document Date_parse d = Inl e)
      \<and> ((\<forall>d \<in> set founds. \<exists>x. found_document Date_parse d = Inr x) \<longrightarrow>
           (\<exists>docs. getDocumentsForIds Date_parse batchGet dbServer collectionKey documentIds = Inr docs))"
proof -
  define json where "json = batchGet (baseUrl dbServer @ '':batchGet'')
                (map (\<lambda>ident. projectPrefix @ ''/'' @ collectionKey @ ''/'' @ ident) documentIds)"
  define founds where "founds = List.map_filter entry_found json"
  have eq: "getDocumentsForIds Date_parse batchGet dbServer collectionKey documentIds
              = map_raising (found_document Date_parse) founds"
    by (simp add: getDocumentsForIds_eq founds_def json_def)
  have len: "length founds = length (filter (\<lambda>entry. entry_found entry \<noteq> None) json)"
    by (simp add: founds_def map_filter_def)
  have ok: "length docs = length (filter (\<lambda>entry. entry_found entry \<noteq> None) json)
           \<and> map Inr docs = map (found_document Date_parse) founds
           \<and> (\<forall>doc \<in> set docs. \<exists>ps. doc = Obj ps)"
    if r: "map_raising (found_document Date_parse) founds = Inr docs" for docs
  proof -
    have m: "map Inr docs = map (found_document Date_parse) founds"
      using r by (rule map_raising_map)
    have "\<exists>ps. doc = Obj ps" if "doc \<in> set docs" for doc
    proof -
      have "Inr doc \<in> set (map (found_document Date_parse) founds)"
        using that m [symmetric] by auto
      then show ?thesis by (auto dest: found_document_Obj [OF sym])
    qed
    then show ?thesis using map_raising_length [OF r] m len by simp
  qed
  have bad: "\<exists>d \<in> set founds. found_document Date_parse d = Inl e"
    if "map_raising (found_document Date_parse) founds = Inl e" for e
    using that by (rule map_raising_Inl)
  have tot: "(\<forall>d \<in> set founds. \<exists>x. found_document Date_parse d = Inr x) \<longrightarrow>
           (\<exists>docs. map_raising (found_document Date_parse) founds = Inr docs)"
    using map_raising_Inr [of founds "found_document Date_parse"] by blast
  show ?thesis
    unfolding Let_def json_def [symmetric] founds_def [symmetric] eq
    using ok bad tot by (auto split: sum.splits)
qed

theorem getDocumentsForIds_omits_missing_witness:
  "getDocumentsForIds (\<lambda>s. NaN)
     (\<lambda>url paths. [BatchEntry (Some (WireDoc ''p/sets/a'' (Some [(''n'', integerValue ''3'')]) ''t'' ''u'')) None,
                    BatchEntry None (Some ''p/sets/b''),
                    BatchEntry (Some (WireDoc ''p/sets/c'' None ''t'' ''u'')) None])
     ''http://localhost:8080/v1/'' ''sets'' [''a'', ''b'', ''c'']
   = Inr [Obj [(''id'', Str ''a''), (''n'', Num (Finite 3)),
               (''createTime'', DateObj NaN), (''updateTime'', DateObj NaN)],
          Obj [(''id'', Str ''c''), (''createTime'', DateObj NaN), (''updateTime'', DateObj NaN)]]"
  using getDocumentsForIds_omits_missing [of
     "\<lambda>url paths. [BatchEntry (Some (WireDoc ''p/sets/a'' (Some [(''n'', integerValue ''3'')]) ''t'' ''u'')) None,
                    BatchEntry None (Some ''p/sets/b''),
                    BatchEntry (Some (WireDoc ''p/sets/c'' None ''t'' ''u'')) None]"
     "''http://localhost:8080/v1/''" "''sets''" "[''a'', ''b'', ''c'']" "\<lambda>s. NaN"]
  by (simp add: getDocumentsForIds_def Let_def map_filter_simps wire_shapes assign_def
        set_props_def parse_examples)

section \<open>Properties of the query builder\<close>

lemmas method_defs = QueryBuilder_where_def QueryBuilder_orderBy_def QueryBuilder_limit_def
  QueryBuilder_setOffset_def QueryBuilder_build_def

text \<open>The step of \<^verbatim>\<open>where\<close> on the filter alone.\<close>

lemma where_filter:
  "sq_where (snd (QueryBuilder_where this field op val \<sigma>) (query this)) =
     (case sq_where (\<sigma> (query this)) of
        None \<Rightarrow> Some (FieldFilter field op (createField val))
      | Some (FieldFilter f' op' v') \<Rightarrow>
          Some (CompositeFilter ''AND'' [FieldFilter f' op' v', FieldFilter field op (createField val)])
      | Some (CompositeFilter cop fs) \<Rightarrow>
          Some (CompositeFilter cop (fs @ [FieldFilter field op (createField val)])))"
  by (simp add: QueryBuilder_where_def Let_def split: option.splits filter.splits)

lemma other_calls_keep_where:
  "sq_where (snd (QueryBuilder_orderBy this field direction \<sigma>) (query this)) = sq_where (\<sigma> (query this))"
  "sq_where (snd (QueryBuilder_limit this n \<sigma>) (query this)) = sq_where (\<sigma> (query this))"
  "sq_where (snd (QueryBuilder_setOffset this n \<sigma>) (query this)) = sq_where (\<sigma> (query this))"
  "sq_where (snd (QueryBuilder_build this \<sigma>) (query this)) = sq_where (\<sigma> (query this))"
  by (simp_all add: QueryBuilder_orderBy_def QueryBuilder_limit_def QueryBuilder_setOffset_def
        QueryBuilder_build_def Let_def)

lemma do_calls_where_composite:
  "sq_where (\<sigma> (query this)) = Some (CompositeFilter cop fs) \<Longrightarrow>
   sq_where (do_calls this cs \<sigma> (query this)) = Some (CompositeFilter cop (fs @ leaves cs))"
proof (induction cs arbitrary: \<sigma> fs)
  case Nil
  then show ?case by simp
next
  case (Cons c cs)
  show ?case
  proof (cases c)
    case (Where field op val)
    have "sq_where (do_call this c \<sigma> (query this)) =
            Some (CompositeFilter cop (fs @ [FieldFilter field op (createField val)]))"
      using Cons.prems Where by (simp add: where_filter)
    then show ?thesis using Where by (simp add: Cons.IH)
  qed (use Cons in \<open>simp_all add: other_calls_keep_where\<close>)
qed

lemma do_calls_where_leaf:
  "sq_where (\<sigma> (query this)) = Some (FieldFilter f op v) \<Longrightarrow>
   sq_where (do_calls this cs \<sigma> (query this)) =
     (case leaves cs of
        [] \<Rightarrow> Some (FieldFilter f op v)
      | l # ls \<Rightarrow> Some (CompositeFilter ''AND'' (FieldFilter f op v # l # ls)))"
proof (induction cs arbitrary: \<sigma>)
  case Nil
  then show ?case by simp
next
  case (Cons c cs)
  show ?case
  proof (cases c)
    case (Where field op' val)
    have "sq_where (do_call this c \<sigma> (query this)) =
            Some (CompositeFilter ''AND'' [FieldFilter f op v, FieldFilter field op' (createField val)])"
      using Cons.prems Where by (simp add: where_filter)
    then show ?thesis using Where by (simp add: do_calls_where_composite)
  qed (use Cons in \<open>simp_all add: other_calls_keep_where\<close>)
qed

lemma do_calls_where_none:
  "sq_where (\<sigma> (query this)) = None \<Longrightarrow>
   sq_where (do_calls this cs \<sigma> (query this)) =
     (case leaves cs of
        [] \<Rightarrow> None
      | [l] \<Rightarrow> Some l
      | l # l' # ls \<Rightarrow> Some (CompositeFilter ''AND'' (l # l' # ls)))"
proof (induction cs arbitrary: \<sigma>)
  case Nil
  then show ?case by simp
next
  case (Cons c cs)
  show ?case
  proof (cases c)
    case (Where field op val)
    have "sq_where (do_call this c \<sigma> (query this)) = Some (FieldFilter field op (createField val))"
      using Cons.prems Where by (simp add: where_filter)
    then show ?thesis using Where by (simp add: do_calls_where_leaf split: list.splits)
  qed (use Cons in \<open>simp_all add: other_calls_keep_where\<close>)
qed

lemma leaves_are_leaves: "l \<in> set (leaves cs) \<Longrightarrow> \<exists>field op v. l = FieldFilter field op v"
  by (induction cs rule: leaves.induct) auto

lemma leaves_append: "leaves (cs @ ds) = leaves cs @ leaves ds"
  by (induction cs rule: leaves.induct) auto

text \<open>
  C2. On a new builder, after any sequence of calls, the filter is determined by the
  \<^verbatim>\<open>where\<close> calls among them (calls of the other methods do not touch it): no filter
  after none, the leaf itself after one, and after two or more the single composite
  with operator \<^verbatim>\<open>AND\<close> whose conjuncts are the leaves of all the \<^verbatim>\<open>where\<close> calls in call
  order. Every conjunct is a leaf, so the composite is never nested, and one more
  \<^verbatim>\<open>where\<close> call adds its leaf at the end.
\<close>

theorem where_flat_conjunction:
  "sq_where (do_calls (fst (QueryBuilder_new r \<sigma>)) cs (snd (QueryBuilder_new r \<sigma>)) r) =
     (case leaves cs of
        [] \<Rightarrow> None
      | [l] \<Rightarrow> Some l
      | l # l' # ls \<Rightarrow> Some (CompositeFilter ''AND'' (l # l' # ls)))
   \<and> (\<forall>l \<in> set (leaves cs). \<exists>field op v. l = FieldFilter field op v)
   \<and> leaves (cs @ [Where field op val]) = leaves cs @ [FieldFilter field op (createField val)]"
  using do_calls_where_none [of "snd (QueryBuilder_new r \<sigma>)" "QueryBuilder r" cs]
  by (auto simp: QueryBuilder_new_def empty_query_def leaves_append dest: leaves_are_leaves)

theorem where_flat_conjunction_witness:
  "sq_where (do_calls (fst (QueryBuilder_new 0 (\<lambda>r. empty_query)))
       [Where ''a'' ''EQUAL'' (Num (Finite 1)), Where ''b'' ''EQUAL'' (Num (Finite 2)),
        Where ''c'' ''EQUAL'' (Num (Finite 3))]
       (snd (QueryBuilder_new 0 (\<lambda>r. empty_query))) 0)
   = Some (CompositeFilter ''AND''
       [FieldFilter ''a'' ''EQUAL'' (integerValue ''1''), FieldFilter ''b'' ''EQUAL'' (integerValue ''2''),
        FieldFilter ''c'' ''EQUAL'' (integerValue ''3'')])
   \<and> sq_where (do_calls (fst (QueryBuilder_new 0 (\<lambda>r. empty_query)))
       [Where ''a'' ''EQUAL'' (Num (Finite 1))]
       (snd (QueryBuilder_new 0 (\<lambda>r. empty_query))) 0)
   = Some (FieldFilter ''a'' ''EQUAL'' (integerValue ''1''))"
  using
    where_flat_conjunction [of 0 "\<lambda>r. empty_query"
      "[Where ''a'' ''EQUAL'' (Num (Finite 1)), Where ''b'' ''EQUAL'' (Num (Finite 2)),
        Where ''c'' ''EQUAL'' (Num (Finite 3))]"]
    where_flat_conjunction [of 0 "\<lambda>r. empty_query" "[Where ''a'' ''EQUAL'' (Num (Finite 1))]"]
  by (simp add: toString_examples method_defs QueryBuilder_new_def empty_query_def
        del: Number_toString.simps)

lemma do_calls_orderBy:
  "sq_orderBy (do_calls this cs \<sigma> (query this)) =
     (if orderings cs = [] then sq_orderBy (\<sigma> (query this))
      else Some ((case sq_orderBy (\<sigma> (query this)) of None \<Rightarrow> [] | Some os \<Rightarrow> os) @ orderings cs))"
proof (induction cs arbitrary: \<sigma>)
  case Nil
  show ?case by simp
next
  case (Cons c cs)
  show ?case
    by (cases c)
       (simp_all add: Cons.IH method_defs Let_def split: option.splits filter.splits)
qed

lemma do_calls_limit:
  "sq_limit (do_calls this cs \<sigma> (query this)) =
     (if limits cs = [] then sq_limit (\<sigma> (query this)) else Some (last (limits cs)))"
proof (induction cs arbitrary: \<sigma>)
  case Nil
  show ?case by simp
next
  case (Cons c cs)
  show ?case
    by (cases c)
       (simp_all add: Cons.IH method_defs Let_def split: option.splits filter.splits)
qed

lemma do_calls_offset:
  "sq_offset (do_calls this cs \<sigma> (query this)) =
     (if offsets cs = [] then sq_offset (\<sigma> (query this)) else Some (last (offsets cs)))"
proof (induction cs arbitrary: \<sigma>)
  case Nil
  show ?case by simp
next
  case (Cons c cs)
  show ?case
    by (cases c)
       (simp_all add: Cons.IH method_defs Let_def split: option.splits filter.splits)
qed

lemma orderings_append: "orderings (cs @ ds) = orderings cs @ orderings ds"
  by (induction cs rule: orderings.induct) auto

text \<open>
  C6. On a new builder, after any sequence of calls, the ordering list holds the pairs
  of the \<^verbatim>\<open>orderBy\<close> calls in call order (each call adds its pair at the end), and the
  limit and the offset are those of the last \<^verbatim>\<open>limit\<close> and the last \<^verbatim>\<open>setOffset\<close> call; a
  property that no call has set is absent.
\<close>

theorem orderBy_limit_offset_accumulate:
  "sq_orderBy (do_calls (fst (QueryBuilder_new r \<sigma>)) cs (snd (QueryBuilder_new r \<sigma>)) r) =
     (if orderings cs = [] then None else Some (orderings cs))
   \<and> sq_limit (do_calls (fst (QueryBuilder_new r \<sigma>)) cs (snd (QueryBuilder_new r \<sigma>)) r) =
     (if limits cs = [] then None else Some (last (limits cs)))
   \<and> sq_offset (do_calls (fst (QueryBuilder_new r \<sigma>)) cs (snd (QueryBuilder_new r \<sigma>)) r) =
     (if offsets cs = [] then None else Some (last (offsets cs)))
   \<and> orderings (cs @ [OrderBy field direction]) = orderings cs @ [Ordering field direction]"
  using do_calls_orderBy [of "QueryBuilder r" cs "snd (QueryBuilder_new r \<sigma>)"]
    do_calls_limit [of "QueryBuilder r" cs "snd (QueryBuilder_new r \<sigma>)"]
    do_calls_offset [of "QueryBuilder r" cs "snd (QueryBuilder_new r \<sigma>)"]
  by (simp add: QueryBuilder_new_def empty_query_def orderings_append)

theorem orderBy_limit_offset_accumulate_witness:
  "(let \<sigma> = do_calls (fst (QueryBuilder_new 0 (\<lambda>r. empty_query)))
              [OrderBy ''x'' ''ASCENDING'', Limit (Num (Finite 3)), OrderBy ''y'' ''DESCENDING'',
               Limit (Num (Finite 10)), SetOffset (Num (Finite 5))]
              (snd (QueryBuilder_new 0 (\<lambda>r. empty_query)))
    in sq_orderBy (\<sigma> 0) = Some [Ordering ''x'' ''ASCENDING'', Ordering ''y'' ''DESCENDING'']
       \<and> sq_limit (\<sigma> 0) = Some (Num (Finite 10))
       \<and> sq_offset (\<sigma> 0) = Some (Num (Finite 5)))"
  using orderBy_limit_offset_accumulate [of 0 "\<lambda>r. empty_query"
      "[OrderBy ''x'' ''ASCENDING'', Limit (Num (Finite 3)), OrderBy ''y'' ''DESCENDING'',
        Limit (Num (Finite 10)), SetOffset (Num (Finite 5))]"]
  by (simp add: Let_def)

lemma do_calls_append: "do_calls this (cs @ ds) \<sigma> = do_calls this ds (do_calls this cs \<sigma>)"
  by (induction cs arbitrary: \<sigma>) simp_all

text \<open>
  C7. \<^verbatim>\<open>build\<close> leaves the store as it is and returns the reference that the builder
  holds, not a copy. So a \<^verbatim>\<open>build\<close> call anywhere in a sequence of calls changes nothing
  for the calls after it, and the descriptor it returned, read after later calls, is
  the builder's query object with their changes: after a later \<^verbatim>\<open>limit(n)\<close> it has the
  limit \<open>n\<close>, and after a later \<^verbatim>\<open>where\<close> its filter is no longer the one it had.
\<close>

theorem build_returns_live_query:
  "snd (QueryBuilder_build this \<sigma>) = \<sigma>
   \<and> fst (QueryBuilder_build this \<sigma>) = query this
   \<and> do_calls this (cs @ Build # ds) \<sigma> = do_calls this (cs @ ds) \<sigma>
   \<and> do_calls this ds (snd (QueryBuilder_build this \<sigma>)) (fst (QueryBuilder_build this \<sigma>))
       = do_calls this ds \<sigma> (query this)
   \<and> sq_limit (snd (QueryBuilder_limit this n (snd (QueryBuilder_build this \<sigma>)))
        (fst (QueryBuilder_build this \<sigma>))) = Some n
   \<and> sq_where (snd (QueryBuilder_where this field op val (snd (QueryBuilder_build this \<sigma>)))
        (fst (QueryBuilder_build this \<sigma>))) \<noteq> sq_where (\<sigma> (query this))"
  by (simp add: QueryBuilder_build_def QueryBuilder_limit_def do_calls_append where_filter
        split: option.splits filter.splits)

end
